theory Spec2Isabelle
  imports Complex_Main "HOL-Library.Multiset" "HOL-Library.Sublist" "HOL-Library.List_Lexorder"
begin

section \<open>Data model (src/types)\<close>

text \<open>
  \<^verbatim>\<open>GeoProject\<close>, \<^verbatim>\<open>ApiResponse\<close> and \<^verbatim>\<open>TableState\<close> are the three interfaces of
  the types module. A JavaScript string is modelled as a \<open>string\<close> with one \<open>char\<close> per
  code unit, which covers the code units below 256; a JavaScript number is an \<open>int\<close>
  where the program uses it as a count or an index (page, pageSize, total) and a
  \<open>real\<close> where it is a coordinate or the result of a comparator (no NaN, no infinity,
  no rounding). The fields \<^verbatim>\<open>id\<close> and \<^verbatim>\<open>total\<close> are called \<open>id_field\<close> and
  \<open>total_field\<close> here, the fields of the response that echo the request are \<open>respPage\<close>
  and \<open>respPageSize\<close>.
\<close>

datatype Status = Active | Inactive | Completed | Pending

fun statusString :: "Status \<Rightarrow> string" where
  "statusString Active = ''Active''"
| "statusString Inactive = ''Inactive''"
| "statusString Completed = ''Completed''"
| "statusString Pending = ''Pending''"

record GeoProject =
  id_field :: string
  projectName :: string
  latitude :: real
  longitude :: real
  status :: Status
  lastUpdated :: string

text \<open>\<^verbatim>\<open>keyof GeoProject\<close>.\<close>

datatype Field = K_id | K_projectName | K_latitude | K_longitude | K_status | K_lastUpdated

datatype SortOrder = Asc | Desc

record ApiResponse =
  data :: "GeoProject list"
  total_field :: int
  respPage :: int
  respPageSize :: int

record TableState =
  page :: int
  pageSize :: int
  sortBy :: "Field option"
  sortOrder :: SortOrder
  filterText :: string

text \<open>The value of a property read \<^verbatim>\<open>a[sortBy]\<close>: a string or a number.\<close>

datatype Val = Str string | Num real

fun getField :: "GeoProject \<Rightarrow> Field \<Rightarrow> Val" where
  "getField p K_id = Str (id_field p)"
| "getField p K_projectName = Str (projectName p)"
| "getField p K_latitude = Num (latitude p)"
| "getField p K_longitude = Num (longitude p)"
| "getField p K_status = Str (statusString (status p))"
| "getField p K_lastUpdated = Str (lastUpdated p)"

section \<open>Built-in string and array operations\<close>

text \<open>
  \<^verbatim>\<open>String.prototype.toLowerCase\<close> on code units below 256: the letters A to Z and the
  Latin-1 capitals (192 to 222, without the multiplication sign 215) move up by 32, every
  other code unit stays.
\<close>

definition lowerChar :: "char \<Rightarrow> char" where
  "lowerChar c =
     (let n = (of_char c :: nat) in
      if (65 \<le> n \<and> n \<le> 90) \<or> (192 \<le> n \<and> n \<le> 222 \<and> n \<noteq> 215)
      then char_of (n + 32) else c)"

definition toLowerCase :: "string \<Rightarrow> string" where
  "toLowerCase s = map lowerChar s"

text \<open>
  \<^verbatim>\<open>String.prototype.trim\<close> removes white space and line terminators at both ends;
  below 256 these are tab, line feed, vertical tab, form feed, carriage return, space and
  no-break space.
\<close>

definition isWhiteSpace :: "char \<Rightarrow> bool" where
  "isWhiteSpace c = ((of_char c :: nat) \<in> {9, 10, 11, 12, 13, 32, 160})"

definition trim :: "string \<Rightarrow> string" where
  "trim s = rev (dropWhile isWhiteSpace (rev (dropWhile isWhiteSpace s)))"

text \<open>\<^verbatim>\<open>s.includes(p)\<close>: \<open>p\<close> occurs in \<open>s\<close> as a contiguous run of code units.\<close>

fun includes_js :: "string \<Rightarrow> string \<Rightarrow> bool" where
  "includes_js [] p = (p = [])"
| "includes_js (c # s) p = (prefix p (c # s) \<or> includes_js s p)"

text \<open>
  \<^verbatim>\<open>Array.prototype.slice(start, end)\<close>: a negative index counts from the end of the
  array, both indices are clamped to the array, and an end at or before the start gives
  the empty array.
\<close>

definition slice :: "'a list \<Rightarrow> int \<Rightarrow> int \<Rightarrow> 'a list" where
  "slice xs start fin =
     (let len = int (length xs);
          k = (if start < 0 then max (len + start) 0 else min start len);
          final = (if fin < 0 then max (len + fin) 0 else min fin len)
      in take (nat (final - k)) (drop (nat k) xs))"

text \<open>
  \<^verbatim>\<open>Array.prototype.sort(cmp)\<close> is a stable sort: \<open>a\<close> stays before \<open>b\<close> unless
  \<open>cmp a b\<close> is positive. For a consistent comparator the language fixes the result, and
  any stable sorting algorithm computes it; the model inserts the elements from the right
  into the sorted rest, each one in front of the first element it does not exceed.
\<close>

fun insertSorted :: "('a \<Rightarrow> 'a \<Rightarrow> real) \<Rightarrow> 'a \<Rightarrow> 'a list \<Rightarrow> 'a list" where
  "insertSorted cmp x [] = [x]"
| "insertSorted cmp x (y # ys) =
     (if cmp x y \<le> 0 then x # y # ys else y # insertSorted cmp x ys)"

definition sort_js :: "('a \<Rightarrow> 'a \<Rightarrow> real) \<Rightarrow> 'a list \<Rightarrow> 'a list" where
  "sort_js cmp xs = foldr (insertSorted cmp) xs []"

text \<open>
  What the language requires of \<^verbatim>\<open>localeCompare\<close> and of every comparator handed to
  \<^verbatim>\<open>sort\<close>: equal arguments compare as 0, swapping the arguments swaps the sign, and
  the order is transitive.
\<close>

definition consistentComparator :: "('a \<Rightarrow> 'a \<Rightarrow> real) \<Rightarrow> bool" where
  "consistentComparator cmp =
     ((\<forall>a. cmp a a = 0)
      \<and> (\<forall>a b. (cmp a b < 0) = (0 < cmp b a))
      \<and> (\<forall>a b c. cmp a b \<le> 0 \<and> cmp b c \<le> 0 \<longrightarrow> cmp a c \<le> 0))"

text \<open>
  One consistent comparator on strings, the order of the code units, for running the
  query function on concrete inputs. The query function itself takes
  \<^verbatim>\<open>localeCompare\<close> as a parameter, since the collation depends on the host's locale.
\<close>

definition codeUnitCompare :: "string \<Rightarrow> string \<Rightarrow> real" where
  "codeUnitCompare s t =
     (let ks = map of_char s :: nat list; kt = map of_char t :: nat list
      in if ks < kt then - 1 else if kt < ks then 1 else 0)"

section \<open>The query function (src/data/mockApi.ts)\<close>

text \<open>
  \<open>generateMockData\<close> draws latitude, longitude, status and date at random in every
  round of its loop. \<open>rand i\<close> stands for the four values drawn in round \<open>i\<close>; the id
  and the name are computed from \<open>i\<close>.
\<close>

record Draw =
  drawLatitude :: real
  drawLongitude :: real
  drawStatus :: Status
  drawDate :: string

definition projectNames :: "string list" where
  "projectNames =
     [''Solar Farm Alpha'', ''Wind Energy Beta'', ''Hydroelectric Project'',
      ''Geothermal Station'', ''Biomass Facility'', ''Grid Infrastructure'',
      ''Smart City Initiative'', ''Environmental Survey'', ''Resource Mapping'',
      ''Climate Analysis'', ''Urban Planning Zone'', ''Agricultural Census'',
      ''Mineral Exploration'', ''Water Resource Study'', ''Coastal Management'']"

text \<open>The decimal digits of a natural number, as a template literal prints it.\<close>

fun showNat :: "nat \<Rightarrow> string" where
  "showNat n =
     (if n < 10 then [char_of (48 + n)]
      else showNat (n div 10) @ [char_of (48 + n mod 10)])"

declare showNat.simps [simp del]

definition mockProject :: "(nat \<Rightarrow> Draw) \<Rightarrow> nat \<Rightarrow> GeoProject" where
  "mockProject rand i =
     \<lparr>id_field = ''project-'' @ showNat (i + 1),
      projectName = projectNames ! (i mod length projectNames) @ '' ''
                    @ showNat (i div length projectNames + 1),
      latitude = drawLatitude (rand i),
      longitude = drawLongitude (rand i),
      status = drawStatus (rand i),
      lastUpdated = drawDate (rand i)\<rparr>"

function generateLoop :: "(nat \<Rightarrow> Draw) \<Rightarrow> nat \<Rightarrow> GeoProject list \<Rightarrow> GeoProject list" where
  "generateLoop rand i acc =
     (if i < 5000 then generateLoop rand (i + 1) (acc @ [mockProject rand i]) else acc)"
  by pat_completeness auto
termination
  by (relation "measure (\<lambda>(rand, i, acc). 5000 - i)") auto

declare generateLoop.simps [simp del]

definition generateMockData :: "(nat \<Rightarrow> Draw) \<Rightarrow> GeoProject list" where
  "generateMockData rand = generateLoop rand 0 []"

text \<open>
  The predicate handed to \<^verbatim>\<open>data.filter\<close>; \<open>flt\<close> is the lower-cased filter text.
\<close>

definition matchesFilter :: "string \<Rightarrow> GeoProject \<Rightarrow> bool" where
  "matchesFilter flt project =
     (includes_js (toLowerCase (projectName project)) flt
      \<or> includes_js (toLowerCase (statusString (status project))) flt
      \<or> includes_js (toLowerCase (id_field project)) flt)"

text \<open>
  The filtering step. The optional argument is \<open>None\<close> when the caller leaves it out;
  \<^verbatim>\<open>filterText?.trim()\<close> is falsy for a missing text and for a text that trims to the
  empty string. The filter that is compared is the whole text, lower-cased, not the
  trimmed one.
\<close>

definition applyFilter :: "string option \<Rightarrow> GeoProject list \<Rightarrow> GeoProject list" where
  "applyFilter ft dat =
     (case ft of
        None \<Rightarrow> dat
      | Some txt \<Rightarrow>
          if trim txt \<noteq> [] then (let flt = toLowerCase txt in filter (matchesFilter flt) dat)
          else dat)"

text \<open>
  The rule as the specification words it, for comparison with \<open>matchesFilter\<close>: the text
  occurs in the field when letter case is ignored, that is, at some offset the next
  code units of the field are those of the text up to case; a record matches when its
  name, its status or its id contains the text in this sense.
\<close>

definition sameLetters :: "string \<Rightarrow> string \<Rightarrow> bool" where
  "sameLetters v txt = list_all2 (\<lambda>a b. lowerChar a = lowerChar b) v txt"

definition ciSubstring :: "string \<Rightarrow> string \<Rightarrow> bool" where
  "ciSubstring fld txt =
     list_ex (\<lambda>i. sameLetters (take (length txt) (drop i fld)) txt) [0..<Suc (length fld)]"

definition specMatch :: "string \<Rightarrow> GeoProject \<Rightarrow> bool" where
  "specMatch txt r =
     (ciSubstring (projectName r) txt
      \<or> ciSubstring (statusString (status r)) txt
      \<or> ciSubstring (id_field r) txt)"

text \<open>
  The comparator of the sorting step. Both values are read from the same field, so they
  are both strings or both numbers; the two mixed cases cannot arise and are given 0.
  Every order other than \<^verbatim>\<open>'asc'\<close>, the missing one included, takes the descending
  branch.
\<close>

definition compareProjects ::
  "(string \<Rightarrow> string \<Rightarrow> real) \<Rightarrow> Field \<Rightarrow> SortOrder option \<Rightarrow> GeoProject \<Rightarrow> GeoProject \<Rightarrow> real"
where
  "compareProjects localeCompare key ord a b =
     (case getField a key of
        Str aVal \<Rightarrow>
          (case getField b key of
             Str bVal \<Rightarrow>
               if ord = Some Asc then localeCompare aVal bVal else localeCompare bVal aVal
           | Num bNum \<Rightarrow> 0)
      | Num aVal \<Rightarrow>
          (case getField b key of
             Num bVal \<Rightarrow> if ord = Some Asc then aVal - bVal else bVal - aVal
           | Str bStr \<Rightarrow> 0))"

definition applySort ::
  "(string \<Rightarrow> string \<Rightarrow> real) \<Rightarrow> Field option \<Rightarrow> SortOrder option
     \<Rightarrow> GeoProject list \<Rightarrow> GeoProject list"
where
  "applySort localeCompare key ord dat =
     (case key of
        None \<Rightarrow> dat
      | Some k \<Rightarrow> sort_js (compareProjects localeCompare k ord) dat)"

text \<open>
  \<open>fetchProjects\<close> on the array that \<^verbatim>\<open>getMockData()\<close> returns. The promise always
  resolves, after the timer, with this response; there is no rejecting path.
\<close>

definition fetchProjects ::
  "(string \<Rightarrow> string \<Rightarrow> real) \<Rightarrow> GeoProject list \<Rightarrow> int \<Rightarrow> int
     \<Rightarrow> Field option \<Rightarrow> SortOrder option \<Rightarrow> string option \<Rightarrow> ApiResponse"
where
  "fetchProjects localeCompare store pg ps key ord ft =
     (let filtered = applyFilter ft store;
          sorted = applySort localeCompare key ord filtered;
          startIdx = (pg - 1) * ps;
          endIdx = startIdx + ps;
          paginatedData = slice sorted startIdx endIdx
      in \<lparr>data = paginatedData, total_field = int (length sorted),
          respPage = pg, respPageSize = ps\<rparr>)"

text \<open>
  The number of pages the table shows, \<^verbatim>\<open>Math.ceil(total / state.pageSize)\<close>. For a
  page size of 0 the quotient is infinite or not a number, and there is no page count.
\<close>

definition totalPages :: "int \<Rightarrow> int \<Rightarrow> int option" where
  "totalPages tot ps = (if ps = 0 then None else Some (- ((- tot) div ps)))"

section \<open>The query function on the module's store\<close>

text \<open>
  Arrays are objects: \<^verbatim>\<open>let data = getMockData()\<close> makes \<^verbatim>\<open>data\<close> another name
  for the cached array, and \<^verbatim>\<open>sort\<close> writes into the array it is called on. To state
  what a query does to the cache, arrays live in a store: \<open>arrays\<close> maps an address to the
  contents of the array there, \<open>nextAddr\<close> is the first address not yet used, and
  \<open>cachedData\<close> is the module variable, \<open>None\<close> for \<^verbatim>\<open>null\<close>.
\<close>

record Module =
  arrays :: "nat \<Rightarrow> GeoProject list option"
  nextAddr :: nat
  cachedData :: "nat option"

definition newArray :: "GeoProject list \<Rightarrow> Module \<Rightarrow> nat \<times> Module" where
  "newArray xs m =
     (nextAddr m, m\<lparr>arrays := (arrays m)(nextAddr m \<mapsto> xs), nextAddr := Suc (nextAddr m)\<rparr>)"

definition readArray :: "Module \<Rightarrow> nat \<Rightarrow> GeoProject list" where
  "readArray m a = (case arrays m a of None \<Rightarrow> [] | Some xs \<Rightarrow> xs)"

text \<open>\<^verbatim>\<open>a.sort(cmp)\<close> sorts the array at \<open>a\<close> in place and returns \<open>a\<close>.\<close>

definition sortInPlace :: "(GeoProject \<Rightarrow> GeoProject \<Rightarrow> real) \<Rightarrow> nat \<Rightarrow> Module \<Rightarrow> nat \<times> Module" where
  "sortInPlace cmp a m = (a, m\<lparr>arrays := (arrays m)(a \<mapsto> sort_js cmp (readArray m a))\<rparr>)"

definition getMockData :: "(nat \<Rightarrow> Draw) \<Rightarrow> Module \<Rightarrow> nat \<times> Module" where
  "getMockData rand m =
     (case cachedData m of
        None \<Rightarrow> (let (a, m') = newArray (generateMockData rand) m
                 in (a, m'\<lparr>cachedData := Some a\<rparr>))
      | Some a \<Rightarrow> (a, m))"

text \<open>The module as loaded: \<^verbatim>\<open>let cachedData = null\<close>, and no array yet.\<close>

definition initialModule :: Module where
  "initialModule = \<lparr>arrays = Map.empty, nextAddr = 0, cachedData = None\<rparr>"

text \<open>
  \<open>fetchProjectsM\<close> is \<open>fetchProjects\<close> with every array operation placed in the store:
  \<^verbatim>\<open>filter\<close>, the spread \<^verbatim>\<open>[...data]\<close> and \<^verbatim>\<open>slice\<close> each make a new array,
  \<^verbatim>\<open>sort\<close> writes into the copy that the spread made. The response carries the contents
  of the page array.
\<close>

definition fetchProjectsM ::
  "(string \<Rightarrow> string \<Rightarrow> real) \<Rightarrow> (nat \<Rightarrow> Draw) \<Rightarrow> int \<Rightarrow> int
     \<Rightarrow> Field option \<Rightarrow> SortOrder option \<Rightarrow> string option \<Rightarrow> Module \<Rightarrow> ApiResponse \<times> Module"
where
  "fetchProjectsM localeCompare rand pg ps key ord ft m =
     (let (d0, m0) = getMockData rand m;
          (d1, m1) =
            (case ft of
               None \<Rightarrow> (d0, m0)
             | Some txt \<Rightarrow>
                 if trim txt \<noteq> []
                 then newArray (filter (matchesFilter (toLowerCase txt)) (readArray m0 d0)) m0
                 else (d0, m0));
          (d2, m2) =
            (case key of
               None \<Rightarrow> (d1, m1)
             | Some k \<Rightarrow>
                 (let (c, mc) = newArray (readArray m1 d1) m1
                  in sortInPlace (compareProjects localeCompare k ord) c mc));
          startIdx = (pg - 1) * ps;
          endIdx = startIdx + ps;
          (d3, m3) = newArray (slice (readArray m2 d2) startIdx endIdx) m2
      in (\<lparr>data = readArray m3 d3, total_field = int (length (readArray m3 d2)),
           respPage = pg, respPageSize = ps\<rparr>, m3))"

text \<open>A query as the caller issues it, and a run of queries one after the other.\<close>

record Query =
  qPage :: int
  qPageSize :: int
  qSortBy :: "Field option"
  qSortOrder :: "SortOrder option"
  qFilterText :: "string option"

fun runQueries ::
  "(string \<Rightarrow> string \<Rightarrow> real) \<Rightarrow> (nat \<Rightarrow> Draw) \<Rightarrow> Query list \<Rightarrow> Module
     \<Rightarrow> ApiResponse list \<times> Module"
where
  "runQueries localeCompare rand [] m = ([], m)"
| "runQueries localeCompare rand (q # qs) m =
     (let (r, m') = fetchProjectsM localeCompare rand (qPage q) (qPageSize q)
                      (qSortBy q) (qSortOrder q) (qFilterText q) m;
          (rs, m'') = runQueries localeCompare rand qs m'
      in (r # rs, m''))"

text \<open>The response to a query when the store holds the records \<open>store\<close>.\<close>

definition answer :: "(string \<Rightarrow> string \<Rightarrow> real) \<Rightarrow> GeoProject list \<Rightarrow> Query \<Rightarrow> ApiResponse" where
  "answer localeCompare store q =
     fetchProjects localeCompare store (qPage q) (qPageSize q) (qSortBy q) (qSortOrder q)
       (qFilterText q)"

section \<open>The orchestrator hook (src/hooks/useTableData.ts)\<close>

text \<open>
  The five \<^verbatim>\<open>useState\<close> cells of \<^verbatim>\<open>useTableData\<close> form one record; \<open>tableData\<close> and
  \<open>tableTotal\<close> are the cells \<^verbatim>\<open>data\<close> and \<^verbatim>\<open>total\<close>. Every handler is a function from
  the cells before the event to the cells after it.
\<close>

record Hook =
  tableData :: "GeoProject list"
  loading :: bool
  tableTotal :: int
  state :: TableState
  selectedId :: "string option"

definition initialHook :: Hook where
  "initialHook =
     \<lparr>tableData = [], loading = False, tableTotal = 0,
      state = \<lparr>page = 1, pageSize = 50, sortBy = None, sortOrder = Asc, filterText = ''''\<rparr>,
      selectedId = None\<rparr>"

definition handleSearch :: "string \<Rightarrow> Hook \<Rightarrow> Hook" where
  "handleSearch text h = h\<lparr>state := (state h)\<lparr>filterText := text, page := 1\<rparr>\<rparr>"

definition handleSort :: "Field \<Rightarrow> Hook \<Rightarrow> Hook" where
  "handleSort column h =
     (let prev = state h in
      h\<lparr>state := prev
         \<lparr>sortBy := (if sortBy prev = Some column then Some column else Some column),
          sortOrder := (if sortBy prev = Some column \<and> sortOrder prev = Asc then Desc else Asc),
          page := 1\<rparr>\<rparr>)"

definition handlePageChange :: "int \<Rightarrow> Hook \<Rightarrow> Hook" where
  "handlePageChange p h = h\<lparr>state := (state h)\<lparr>page := p\<rparr>\<rparr>"

definition handlePageSizeChange :: "int \<Rightarrow> Hook \<Rightarrow> Hook" where
  "handlePageSizeChange ps h = h\<lparr>state := (state h)\<lparr>pageSize := ps, page := 1\<rparr>\<rparr>"

definition handleRowSelect :: "string \<Rightarrow> Hook \<Rightarrow> Hook" where
  "handleRowSelect i h = h\<lparr>selectedId := Some i\<rparr>"

text \<open>
  \<open>loadData\<close> calls \<open>fetchProjects\<close> with four arguments: page, page size, sort key and
  sort order. The fifth, the filter text, is left out. The promise never rejects, so the
  \<^verbatim>\<open>catch\<close> branch is not taken and the cells end as written below.
\<close>

definition loadData :: "(string \<Rightarrow> string \<Rightarrow> real) \<Rightarrow> GeoProject list \<Rightarrow> Hook \<Rightarrow> Hook" where
  "loadData localeCompare store h =
     (let h1 = h\<lparr>loading := True\<rparr>;
          response = fetchProjects localeCompare store
                       (page (state h)) (pageSize (state h))
                       (sortBy (state h)) (Some (sortOrder (state h))) None
      in h1\<lparr>tableData := data response, tableTotal := total_field response, loading := False\<rparr>)"

text \<open>
  The test both views apply to decide whether a record is shown as selected
  (\<^verbatim>\<open>selectedId === project.id\<close> in the table, \<^verbatim>\<open>id === selectedId\<close> on the map).
\<close>

definition isSelected :: "Hook \<Rightarrow> string \<Rightarrow> bool" where
  "isSelected h i = (selectedId h = Some i)"

section \<open>Sample inputs\<close>

text \<open>Three records, and one outcome of the random draws, for running the definitions.\<close>

definition sampleA :: GeoProject where
  "sampleA = \<lparr>id_field = ''project-1'', projectName = ''Solar Farm Alpha 1'',
     latitude = 10.5, longitude = - 20.25, status = Active, lastUpdated = ''2025-01-02''\<rparr>"

definition sampleB :: GeoProject where
  "sampleB = \<lparr>id_field = ''project-2'', projectName = ''Wind Energy Beta 1'',
     latitude = - 3.5, longitude = 40, status = Pending, lastUpdated = ''2025-03-02''\<rparr>"

definition sampleC :: GeoProject where
  "sampleC = \<lparr>id_field = ''project-3'', projectName = ''Hydroelectric Project 1'',
     latitude = - 3.5, longitude = 41, status = Inactive, lastUpdated = ''2024-03-02''\<rparr>"

definition sampleDraw :: "nat \<Rightarrow> Draw" where
  "sampleDraw i = \<lparr>drawLatitude = real i / 100 - 25, drawLongitude = 90 - real i / 50,
     drawStatus = (if even i then Active else Pending), drawDate = ''2025-06-01''\<rparr>"

text \<open>A module whose cache already holds the three records, at address 0.\<close>

definition sampleModule :: Module where
  "sampleModule =
     \<lparr>arrays = [0 \<mapsto> [sampleA, sampleB, sampleC]], nextAddr = 1, cachedData = Some 0\<rparr>"

section \<open>The sorting step\<close>

lemma mset_insertSorted: "mset (insertSorted cmp x ys) = add_mset x (mset ys)"
  by (induction ys) simp_all

lemma mset_sort_js: "mset (sort_js cmp xs) = mset xs"
  unfolding sort_js_def by (induction xs) (simp_all add: mset_insertSorted)

lemma set_sort_js: "set (sort_js cmp xs) = set xs"
  using mset_sort_js [of cmp xs] by (metis set_mset_mset)

lemma length_sort_js: "length (sort_js cmp xs) = length xs"
  using mset_sort_js [of cmp xs] by (metis size_mset)

lemma set_insertSorted: "set (insertSorted cmp x ys) = insert x (set ys)"
  using mset_insertSorted [of cmp x ys] by (metis set_mset_add_mset_insert set_mset_mset)

lemma consistent_refl: "consistentComparator cmp \<Longrightarrow> cmp a a = 0"
  by (simp add: consistentComparator_def)

lemma consistent_total: "consistentComparator cmp \<Longrightarrow> \<not> cmp a b \<le> 0 \<Longrightarrow> cmp b a \<le> 0"
  unfolding consistentComparator_def by (metis less_eq_real_def not_le)

lemma consistent_trans:
  "consistentComparator cmp \<Longrightarrow> cmp a b \<le> 0 \<Longrightarrow> cmp b c \<le> 0 \<Longrightarrow> cmp a c \<le> 0"
  unfolding consistentComparator_def by blast

lemma consistent_equiv_sym: "consistentComparator cmp \<Longrightarrow> cmp a b = 0 \<Longrightarrow> cmp b a = 0"
  unfolding consistentComparator_def by (metis less_irrefl linorder_neqE_linordered_idom)

lemma sorted_insertSorted:
  assumes c: "consistentComparator cmp"
  shows "sorted_wrt (\<lambda>a b. cmp a b \<le> 0) ys \<Longrightarrow> sorted_wrt (\<lambda>a b. cmp a b \<le> 0) (insertSorted cmp x ys)"
proof (induction ys)
  case Nil
  then show ?case by simp
next
  case (Cons y ys)
  show ?case
  proof (cases "cmp x y \<le> 0")
    case True
    have "\<forall>z\<in>set ys. cmp x z \<le> 0"
      using Cons.prems True consistent_trans [OF c] by auto
    with True Cons.prems show ?thesis by simp
  next
    case False
    then have yx: "cmp y x \<le> 0" by (rule consistent_total [OF c])
    from Cons have "sorted_wrt (\<lambda>a b. cmp a b \<le> 0) (insertSorted cmp x ys)" by simp
    with False yx Cons.prems show ?thesis by (auto simp: set_insertSorted)
  qed
qed

lemma sorted_sort_js:
  "consistentComparator cmp \<Longrightarrow> sorted_wrt (\<lambda>a b. cmp a b \<le> 0) (sort_js cmp xs)"
  unfolding sort_js_def by (induction xs) (simp_all add: sorted_insertSorted)

lemma insertSorted_head:
  "\<forall>z\<in>set ys. cmp x z \<le> 0 \<Longrightarrow> insertSorted cmp x ys = x # ys"
  by (cases ys) simp_all

lemma sort_js_sorted_id:
  "sorted_wrt (\<lambda>a b. cmp a b \<le> 0) xs \<Longrightarrow> sort_js cmp xs = xs"
  unfolding sort_js_def by (induction xs) (simp_all add: insertSorted_head)

lemma sort_js_idem:
  "consistentComparator cmp \<Longrightarrow> sort_js cmp (sort_js cmp xs) = sort_js cmp xs"
  by (simp add: sort_js_sorted_id sorted_sort_js)

lemma filter_insertSorted:
  assumes "\<And>z. z \<in> set ys \<Longrightarrow> P x \<Longrightarrow> P z \<Longrightarrow> cmp x z \<le> 0"
  shows "filter P (insertSorted cmp x ys) = filter P (x # ys)"
  using assms by (induction ys) auto

lemma consistent_equiv_le:
  assumes c: "consistentComparator cmp" and "cmp w x = 0" and "cmp w z = 0"
  shows "cmp x z \<le> 0"
proof -
  have "cmp x w \<le> 0" using consistent_equiv_sym [OF c assms(2)] by simp
  moreover have "cmp w z \<le> 0" using assms(3) by simp
  ultimately show ?thesis by (rule consistent_trans [OF c])
qed

lemma stable_sort_js:
  assumes c: "consistentComparator cmp"
  shows "filter (\<lambda>y. cmp w y = 0) (sort_js cmp xs) = filter (\<lambda>y. cmp w y = 0) xs"
proof (induction xs)
  case Nil
  then show ?case by (simp add: sort_js_def)
next
  case (Cons x xs)
  have "filter (\<lambda>y. cmp w y = 0) (insertSorted cmp x (sort_js cmp xs))
        = filter (\<lambda>y. cmp w y = 0) (x # sort_js cmp xs)"
    by (rule filter_insertSorted) (rule consistent_equiv_le [OF c])
  with Cons show ?case by (simp add: sort_js_def)
qed


lemma consistent_on_key:
  assumes c: "consistentComparator lc"
  shows "consistentComparator (\<lambda>a b. lc (f a) (f b))"
  using c unfolding consistentComparator_def by blast

lemma consistent_swapped:
  assumes c: "consistentComparator lc"
  shows "consistentComparator (\<lambda>a b. lc (f b) (f a))"
  using c unfolding consistentComparator_def by blast

lemma consistent_difference: "consistentComparator (\<lambda>a b. (g a :: real) - g b)"
  unfolding consistentComparator_def by auto

lemma getField_same_kind:
  "(\<exists>s. getField a k = Str s) = (\<exists>t. getField b k = Str t)"
  by (cases k) simp_all

lemma compareProjects_cases:
  "compareProjects lc k ord =
     (case k of
        K_id \<Rightarrow> (if ord = Some Asc then (\<lambda>a b. lc (id_field a) (id_field b))
                 else (\<lambda>a b. lc (id_field b) (id_field a)))
      | K_projectName \<Rightarrow> (if ord = Some Asc then (\<lambda>a b. lc (projectName a) (projectName b))
                 else (\<lambda>a b. lc (projectName b) (projectName a)))
      | K_latitude \<Rightarrow> (if ord = Some Asc then (\<lambda>a b. latitude a - latitude b)
                 else (\<lambda>a b. latitude b - latitude a))
      | K_longitude \<Rightarrow> (if ord = Some Asc then (\<lambda>a b. longitude a - longitude b)
                 else (\<lambda>a b. longitude b - longitude a))
      | K_status \<Rightarrow> (if ord = Some Asc
                 then (\<lambda>a b. lc (statusString (status a)) (statusString (status b)))
                 else (\<lambda>a b. lc (statusString (status b)) (statusString (status a))))
      | K_lastUpdated \<Rightarrow> (if ord = Some Asc then (\<lambda>a b. lc (lastUpdated a) (lastUpdated b))
                 else (\<lambda>a b. lc (lastUpdated b) (lastUpdated a))))"
  by (cases k) (auto simp: compareProjects_def fun_eq_iff)

lemma consistent_difference_swapped: "consistentComparator (\<lambda>a b. (g b :: real) - g a)"
  unfolding consistentComparator_def by auto

lemma compareProjects_consistent:
  assumes c: "consistentComparator lc"
  shows "consistentComparator (compareProjects lc k ord)"
  by (cases k)
    (simp_all add: compareProjects_cases consistent_on_key [OF c] consistent_swapped [OF c]
      consistent_difference consistent_difference_swapped)

lemma codeUnitCompare_consistent: "consistentComparator codeUnitCompare"
  unfolding consistentComparator_def codeUnitCompare_def Let_def
  by (auto simp: not_less dest: less_trans order.strict_trans1 order.strict_trans2)

lemma compareProjects_desc_asc:
  "compareProjects lc k (Some Desc) a b = compareProjects lc k (Some Asc) b a"
  by (cases k) (simp_all add: compareProjects_def)

section \<open>The filtering step\<close>

lemma includes_js_sublist: "includes_js s p = sublist p s"
  by (induction s) (simp_all add: sublist_Cons_right)

lemma sameLetters_map: "sameLetters v txt = (map lowerChar v = map lowerChar txt)"
  unfolding sameLetters_def
  by (auto simp: list_all2_conv_all_nth list_eq_iff_nth_eq)

lemma ciSubstring_offset:
  "ciSubstring fld txt =
     (\<exists>i\<le>length fld. map lowerChar (take (length txt) (drop i fld)) = map lowerChar txt)"
  unfolding ciSubstring_def list_ex_iff sameLetters_map
  by (auto simp: less_Suc_eq_le simp del: upt_Suc)

lemma ciSubstring_lower: "ciSubstring fld txt = includes_js (toLowerCase fld) (toLowerCase txt)"
proof
  assume "ciSubstring fld txt"
  then obtain i where i: "i \<le> length fld"
    and eq: "map lowerChar (take (length txt) (drop i fld)) = map lowerChar txt"
    unfolding ciSubstring_offset by blast
  have "fld = take i fld @ take (length txt) (drop i fld) @ drop (length txt) (drop i fld)"
    by (simp only: append_take_drop_id)
  then have "map lowerChar fld =
      map lowerChar (take i fld) @ map lowerChar txt @ map lowerChar (drop (length txt) (drop i fld))"
    using eq by (metis map_append)
  then show "includes_js (toLowerCase fld) (toLowerCase txt)"
    unfolding includes_js_sublist toLowerCase_def sublist_def by blast
next
  assume "includes_js (toLowerCase fld) (toLowerCase txt)"
  then obtain ps ss where split: "map lowerChar fld = ps @ map lowerChar txt @ ss"
    unfolding includes_js_sublist toLowerCase_def sublist_def by blast
  have len: "length ps \<le> length fld"
    using arg_cong [OF split, of length] by simp
  have "map lowerChar (take (length txt) (drop (length ps) fld))
        = take (length txt) (drop (length ps) (map lowerChar fld))"
    by (simp add: take_map drop_map)
  also have "\<dots> = map lowerChar txt"
    by (simp add: split)
  finally show "ciSubstring fld txt"
    unfolding ciSubstring_offset using len by blast
qed

lemma matchesFilter_spec: "matchesFilter (toLowerCase txt) r = specMatch txt r"
  by (simp add: matchesFilter_def specMatch_def ciSubstring_lower)

lemma applyFilter_spec:
  "trim txt \<noteq> [] \<Longrightarrow> applyFilter (Some txt) store = filter (specMatch txt) store"
  by (simp add: applyFilter_def matchesFilter_spec [abs_def] Let_def)

lemma applyFilter_blank:
  "trim txt = [] \<Longrightarrow> applyFilter (Some txt) store = store"
  by (simp add: applyFilter_def)

lemma set_slice: "set (slice xs a b) \<subseteq> set xs"
proof -
  have "set (take n (drop k xs)) \<subseteq> set xs" for n k
    by (meson set_take_subset set_drop_subset subset_trans)
  then show ?thesis by (simp add: slice_def Let_def)
qed

lemma slice_window:
  assumes "0 \<le> a" and "a \<le> b"
  shows "slice xs a b = take (nat (b - a)) (drop (nat a) xs)"
proof (cases "a < int (length xs)")
  case True
  show ?thesis
  proof (cases "b \<le> int (length xs)")
    case True
    with assms \<open>a < int (length xs)\<close> show ?thesis
      by (simp add: slice_def Let_def min_def)
  next
    case False
    with assms True have "slice xs a b = take (nat (int (length xs) - a)) (drop (nat a) xs)"
      by (simp add: slice_def Let_def min_def)
    also have "\<dots> = drop (nat a) xs"
      using assms by (simp add: nat_diff_distrib)
    also have "\<dots> = take (nat (b - a)) (drop (nat a) xs)"
      using assms False by (simp add: nat_diff_distrib nat_le_iff)
    finally show ?thesis .
  qed
next
  case False
  with assms show ?thesis by (simp add: slice_def Let_def min_def)
qed

lemma length_slice_window:
  assumes "0 \<le> a" and "a \<le> b"
  shows "int (length (slice xs a b)) = min (b - a) (max 0 (int (length xs) - a))"
  using assms by (simp add: slice_window)

lemma length_applySort: "length (applySort lc key ord xs) = length xs"
  by (cases key) (simp_all add: applySort_def length_sort_js)

lemma set_applySort: "set (applySort lc key ord xs) = set xs"
  by (cases key) (simp_all add: applySort_def set_sort_js)

lemma set_applyFilter: "set (applyFilter ft store) \<subseteq> set store"
  by (auto simp: applyFilter_def Let_def split: option.splits)

section \<open>The response\<close>

lemma total_fetchProjects:
  "total_field (fetchProjects lc store pg ps key ord ft) = int (length (applyFilter ft store))"
  by (simp add: fetchProjects_def Let_def length_applySort)

lemma data_fetchProjects:
  "data (fetchProjects lc store pg ps key ord ft)
     = slice (applySort lc key ord (applyFilter ft store)) ((pg - 1) * ps) ((pg - 1) * ps + ps)"
  by (simp add: fetchProjects_def Let_def)

lemma set_data_fetchProjects:
  "set (data (fetchProjects lc store pg ps key ord ft)) \<subseteq> set (applyFilter ft store)"
  unfolding data_fetchProjects using set_slice set_applySort by fastforce

lemma generateLoop_map:
  "i \<le> 5000 \<Longrightarrow> generateLoop rand i acc = acc @ map (mockProject rand) [i..<5000]"
proof (induction rand i acc rule: generateLoop.induct)
  case (1 rand i acc)
  show ?case
  proof (cases "i < 5000")
    case True
    then have "generateLoop rand i acc = generateLoop rand (i + 1) (acc @ [mockProject rand i])"
      by (subst generateLoop.simps) simp
    also have "\<dots> = (acc @ [mockProject rand i]) @ map (mockProject rand) [i + 1..<5000]"
      using True by (intro "1.IH") simp_all
    also have "\<dots> = acc @ map (mockProject rand) [i..<5000]"
      using True by (simp add: upt_conv_Cons)
    finally show ?thesis .
  next
    case False
    with "1.prems" have "i = 5000" by simp
    then show ?thesis by (subst generateLoop.simps) simp
  qed
qed

lemma generateMockData_map: "generateMockData rand = map (mockProject rand) [0..<5000]"
  by (simp add: generateMockData_def generateLoop_map)

lemma length_generateMockData: "length (generateMockData rand) = 5000"
  by (simp add: generateMockData_map)

lemma int_le_div_iff:
  assumes "0 < (c::int)"
  shows "(a \<le> b div c) = (a * c \<le> b)"
proof
  assume "a \<le> b div c"
  then have "a * c \<le> (b div c) * c"
    using assms by (simp add: mult_right_mono)
  also have "\<dots> = b - b mod c"
    by (simp add: minus_mod_eq_div_mult)
  also have "\<dots> \<le> b"
    using assms by simp
  finally show "a * c \<le> b" .
next
  assume "a * c \<le> b"
  then have "(a * c) div c \<le> b div c"
    using assms by (rule zdiv_mono1)
  then show "a \<le> b div c"
    using assms by simp
qed

lemma totalPages_positive: "0 < ps \<Longrightarrow> totalPages n ps = Some (- ((- n) div ps))"
  by (simp add: totalPages_def)

lemma totalPages_exceeded:
  assumes "0 < (ps::int)"
  shows "(- ((- n) div ps) < pg) = (n \<le> (pg - 1) * ps)"
proof -
  have shift: "(- q < pg) = (1 - pg \<le> q)" for q :: int by auto
  have "(- ((- n) div ps) < pg) = (1 - pg \<le> (- n) div ps)" by (rule shift)
  also have "\<dots> = ((1 - pg) * ps \<le> - n)"
    by (rule int_le_div_iff [OF assms])
  also have "\<dots> = (n \<le> (pg - 1) * ps)"
    by (simp add: algebra_simps)
  finally show ?thesis .
qed

lemma slice_past_end:
  assumes "1 \<le> pg" and "int (length xs) \<le> (pg - 1) * ps"
  shows "slice xs ((pg - 1) * ps) ((pg - 1) * ps + ps) = []"
proof (cases "0 \<le> ps")
  case True
  have lo: "0 \<le> (pg - 1) * ps" using assms True by simp
  have hi: "(pg - 1) * ps \<le> (pg - 1) * ps + ps" using True by simp
  show ?thesis
    using assms(2) lo by (simp add: slice_window [OF lo hi])
next
  case False
  then have "(pg - 1) * ps \<le> 0"
    using assms(1) by (simp add: mult_nonneg_nonpos)
  with assms(2) have "int (length xs) \<le> 0" by linarith
  then have "xs = []" by simp
  then show ?thesis by (simp add: slice_def Let_def)
qed

section \<open>Queries on the store\<close>

lemma fetchProjectsM_cached:
  assumes "cachedData m = Some c" and "c < nextAddr m" and "arrays m c = Some xs"
  shows "fst (fetchProjectsM lc rand pg ps key ord ft m) = fetchProjects lc xs pg ps key ord ft"
    and "cachedData (snd (fetchProjectsM lc rand pg ps key ord ft m)) = Some c"
    and "nextAddr m \<le> nextAddr (snd (fetchProjectsM lc rand pg ps key ord ft m))"
    and "\<forall>a<nextAddr m. arrays (snd (fetchProjectsM lc rand pg ps key ord ft m)) a = arrays m a"
  using assms
  by (cases ft; cases key;
      simp add: fetchProjectsM_def fetchProjects_def getMockData_def newArray_def
        sortInPlace_def readArray_def applyFilter_def applySort_def Let_def)+

lemma fetchProjectsM_first:
  assumes "cachedData m = None"
  shows "fst (fetchProjectsM lc rand pg ps key ord ft m)
           = fetchProjects lc (generateMockData rand) pg ps key ord ft"
    and "cachedData (snd (fetchProjectsM lc rand pg ps key ord ft m)) = Some (nextAddr m)"
    and "nextAddr m < nextAddr (snd (fetchProjectsM lc rand pg ps key ord ft m))"
    and "arrays (snd (fetchProjectsM lc rand pg ps key ord ft m)) (nextAddr m)
           = Some (generateMockData rand)"
    and "\<forall>a<nextAddr m. arrays (snd (fetchProjectsM lc rand pg ps key ord ft m)) a = arrays m a"
  using assms
  by (cases ft; cases key;
      simp add: fetchProjectsM_def fetchProjects_def getMockData_def newArray_def
        sortInPlace_def readArray_def applyFilter_def applySort_def Let_def)+


lemma runQueries_cached:
  assumes "cachedData m = Some c" and "c < nextAddr m" and "arrays m c = Some xs"
  shows "fst (runQueries lc rand qs m) = map (answer lc xs) qs
         \<and> cachedData (snd (runQueries lc rand qs m)) = Some c
         \<and> arrays (snd (runQueries lc rand qs m)) c = Some xs"
  using assms
proof (induction qs arbitrary: m)
  case Nil
  then show ?case by simp
next
  case (Cons q qs)
  let ?R = "fetchProjectsM lc rand (qPage q) (qPageSize q) (qSortBy q) (qSortOrder q) (qFilterText q) m"
  note step = fetchProjectsM_cached [OF Cons.prems, of lc rand "qPage q" "qPageSize q" "qSortBy q"
      "qSortOrder q" "qFilterText q"]
  have c1: "cachedData (snd ?R) = Some c" by (rule step(2))
  have c2: "c < nextAddr (snd ?R)" using step(3) Cons.prems(2) by simp
  have c3: "arrays (snd ?R) c = Some xs" using step(4) Cons.prems(2,3) by simp
  from Cons.IH [OF c1 c2 c3] step(1)
  show ?case by (simp add: case_prod_beta answer_def)
qed

lemma runQueries_initial:
  assumes "cachedData m = None"
  shows "fst (runQueries lc rand qs m) = map (answer lc (generateMockData rand)) qs"
    and "qs \<noteq> [] \<Longrightarrow> cachedData (snd (runQueries lc rand qs m)) = Some (nextAddr m)
           \<and> arrays (snd (runQueries lc rand qs m)) (nextAddr m) = Some (generateMockData rand)"
proof -
  have both: "fst (runQueries lc rand qs m) = map (answer lc (generateMockData rand)) qs
     \<and> (qs \<noteq> [] \<longrightarrow> cachedData (snd (runQueries lc rand qs m)) = Some (nextAddr m)
           \<and> arrays (snd (runQueries lc rand qs m)) (nextAddr m) = Some (generateMockData rand))"
  proof (cases qs)
    case Nil
    then show ?thesis by simp
  next
    case (Cons q rest)
    let ?R = "fetchProjectsM lc rand (qPage q) (qPageSize q) (qSortBy q) (qSortOrder q) (qFilterText q) m"
    note step = fetchProjectsM_first [OF assms, of lc rand "qPage q" "qPageSize q" "qSortBy q"
      "qSortOrder q" "qFilterText q"]
    from runQueries_cached [OF step(2) step(3) step(4), of lc rand rest] step(1)
    show ?thesis unfolding Cons by (simp add: case_prod_beta answer_def)
  qed
  from both show "fst (runQueries lc rand qs m) = map (answer lc (generateMockData rand)) qs"
    by blast
  from both show "qs \<noteq> [] \<Longrightarrow> cachedData (snd (runQueries lc rand qs m)) = Some (nextAddr m)
           \<and> arrays (snd (runQueries lc rand qs m)) (nextAddr m) = Some (generateMockData rand)"
    by blast
qed

lemma sortInPlace_writes:
  "arrays (snd (sortInPlace cmp a m)) a = Some (sort_js cmp (readArray m a))"
  by (simp add: sortInPlace_def)

section \<open>Claims about the query function\<close>

text \<open>
  Claim C1. When the filter text is not empty after trimming, every record of the
  returned page is a record of the store that matches the rule of the specification
  (the text occurs, letter case ignored, in the name, the status or the id), the
  filtering step keeps exactly the matching records, and the total counts them. When the
  text is empty or white space only, or is left out, the filtering step keeps every
  record and the total is the size of the store.
\<close>

theorem fetchProjects_filter_rule:
  "(trim txt \<noteq> [] \<longrightarrow>
      (\<forall>r \<in> set (data (fetchProjects lc store pg ps key ord (Some txt))).
          r \<in> set store \<and> specMatch txt r)
      \<and> applyFilter (Some txt) store = filter (specMatch txt) store
      \<and> total_field (fetchProjects lc store pg ps key ord (Some txt))
          = int (length (filter (specMatch txt) store)))
   \<and> (trim txt = [] \<longrightarrow>
      applyFilter (Some txt) store = store
      \<and> total_field (fetchProjects lc store pg ps key ord (Some txt)) = int (length store))
   \<and> applyFilter None store = store
   \<and> total_field (fetchProjects lc store pg ps key ord None) = int (length store)"
proof -
  have match: "\<forall>r \<in> set (data (fetchProjects lc store pg ps key ord (Some txt))).
                  r \<in> set store \<and> specMatch txt r"
    if "trim txt \<noteq> []"
    using set_data_fetchProjects [of lc store pg ps key ord "Some txt"]
      applyFilter_spec [OF that, of store] by auto
  have none: "applyFilter None store = store"
    by (simp add: applyFilter_def)
  show ?thesis
    using match by (simp add: total_fetchProjects applyFilter_spec applyFilter_blank none)
qed

text \<open>
  Claim C1 on the three sample records: the text \<^verbatim>\<open>Solar\<close> keeps the first record
  only, and a text of a space and a tab keeps all three.
\<close>

theorem fetchProjects_filter_rule_witness:
  "trim ''Solar'' \<noteq> []
   \<and> specMatch ''Solar'' sampleA
   \<and> data (fetchProjects codeUnitCompare [sampleA, sampleB, sampleC] 1 10
             (Some K_latitude) (Some Asc) (Some ''Solar'')) = [sampleA]
   \<and> trim [CHR '' '', CHR 0x09] = []
   \<and> total_field (fetchProjects codeUnitCompare [sampleA, sampleB, sampleC] 1 10
              (Some K_latitude) (Some Asc) (Some [CHR '' '', CHR 0x09])) = 3"
proof -
  have solar: "trim ''Solar'' \<noteq> []" by code_simp
  have blank: "trim [CHR '' '', CHR 0x09] = []" by code_simp
  have page: "data (fetchProjects codeUnitCompare [sampleA, sampleB, sampleC] 1 10
             (Some K_latitude) (Some Asc) (Some ''Solar'')) = [sampleA]"
    by code_simp
  note rule = fetchProjects_filter_rule [of _ codeUnitCompare "[sampleA, sampleB, sampleC]" 1 10
      "Some K_latitude" "Some Asc"]
  from rule [of "''Solar''"] solar
  have a: "\<forall>r \<in> set (data (fetchProjects codeUnitCompare [sampleA, sampleB, sampleC] 1 10
                         (Some K_latitude) (Some Asc) (Some ''Solar''))).
         r \<in> set [sampleA, sampleB, sampleC] \<and> specMatch ''Solar'' r"
    by blast
  from rule [of "[CHR '' '', CHR 0x09]"] blank
  have b: "total_field (fetchProjects codeUnitCompare [sampleA, sampleB, sampleC] 1 10
              (Some K_latitude) (Some Asc) (Some [CHR '' '', CHR 0x09])) = 3"
    by simp
  from a page have c: "specMatch ''Solar'' sampleA" by simp
  from solar c page blank b show ?thesis by blast
qed

text \<open>
  Claim C2. The page sizes of the query parameters are 10, 25, 50 and 100, the options of
  the table's selector. For every page from 1 on and every such page size (and every
  other page size that is not negative), the returned items are the records of the
  filtered and sorted sequence from offset \<open>(page - 1) * pageSize\<close> on, at most
  \<open>pageSize\<close> of them, so their number is
  \<open>min pageSize (max 0 (total - (page - 1) * pageSize))\<close>, where the total is the
  length of that sequence.
\<close>

theorem fetchProjects_page_slice:
  assumes "1 \<le> pg" and "0 \<le> ps"
  shows "data (fetchProjects lc store pg ps key ord ft)
           = take (nat ps) (drop (nat ((pg - 1) * ps)) (applySort lc key ord (applyFilter ft store)))
         \<and> int (length (data (fetchProjects lc store pg ps key ord ft)))
           = min ps (max 0 (total_field (fetchProjects lc store pg ps key ord ft) - (pg - 1) * ps))
         \<and> total_field (fetchProjects lc store pg ps key ord ft)
           = int (length (applySort lc key ord (applyFilter ft store)))"
proof -
  have lo: "0 \<le> (pg - 1) * ps" using assms by simp
  have hi: "(pg - 1) * ps \<le> (pg - 1) * ps + ps" using assms by simp
  have "data (fetchProjects lc store pg ps key ord ft)
           = take (nat ps) (drop (nat ((pg - 1) * ps)) (applySort lc key ord (applyFilter ft store)))"
    unfolding data_fetchProjects using slice_window [OF lo hi] by simp
  moreover have "int (length (data (fetchProjects lc store pg ps key ord ft)))
           = min ps (max 0 (total_field (fetchProjects lc store pg ps key ord ft) - (pg - 1) * ps))"
    unfolding data_fetchProjects total_fetchProjects
    using length_slice_window [OF lo hi, of "applySort lc key ord (applyFilter ft store)"]
    by (simp add: length_applySort)
  ultimately show ?thesis by (simp add: total_fetchProjects length_applySort)
qed

text \<open>
  Claim C2 on the three sample records: page 1 of size 10 holds all three, and page 2 of
  size 2 holds the third.
\<close>

theorem fetchProjects_page_slice_witness:
  "(1::int) \<le> 1 \<and> (0::int) \<le> 10
   \<and> data (fetchProjects codeUnitCompare [sampleA, sampleB, sampleC] 1 10 None None None)
       = [sampleA, sampleB, sampleC]
   \<and> int (length (data (fetchProjects codeUnitCompare [sampleA, sampleB, sampleC] 1 10 None None None)))
       = min 10 (max 0 (total_field (fetchProjects codeUnitCompare [sampleA, sampleB, sampleC] 1 10 None None None)
            - (1 - 1) * 10))
   \<and> (1::int) \<le> 2 \<and> (0::int) \<le> 2
   \<and> data (fetchProjects codeUnitCompare [sampleA, sampleB, sampleC] 2 2 None None None)
       = take (nat 2) (drop (nat ((2 - 1) * 2))
           (applySort codeUnitCompare None None (applyFilter None [sampleA, sampleB, sampleC])))
   \<and> data (fetchProjects codeUnitCompare [sampleA, sampleB, sampleC] 2 2 None None None) = [sampleC]
   \<and> int (length (data (fetchProjects codeUnitCompare [sampleA, sampleB, sampleC] 2 2 None None None)))
       = min 2 (max 0 (total_field (fetchProjects codeUnitCompare [sampleA, sampleB, sampleC] 2 2 None None None)
            - (2 - 1) * 2))"
proof -
  have pg1: "(1::int) \<le> 1" by simp
  have ps10: "(0::int) \<le> 10" by simp
  have pg: "(1::int) \<le> 2" by simp
  have ps: "(0::int) \<le> 2" by simp
  have first: "data (fetchProjects codeUnitCompare [sampleA, sampleB, sampleC] 1 10 None None None)
       = [sampleA, sampleB, sampleC]"
    by (simp add: fetchProjects_def applyFilter_def applySort_def slice_def Let_def)
  have page: "data (fetchProjects codeUnitCompare [sampleA, sampleB, sampleC] 2 2 None None None) = [sampleC]"
    by (simp add: fetchProjects_def applyFilter_def applySort_def slice_def Let_def)
  from fetchProjects_page_slice [OF pg1 ps10, of codeUnitCompare "[sampleA, sampleB, sampleC]" None None None]
  have len10: "int (length (data (fetchProjects codeUnitCompare [sampleA, sampleB, sampleC] 1 10 None None None)))
       = min 10 (max 0 (total_field (fetchProjects codeUnitCompare [sampleA, sampleB, sampleC] 1 10 None None None)
            - (1 - 1) * 10))"
    by blast
  from fetchProjects_page_slice [OF pg ps, of codeUnitCompare "[sampleA, sampleB, sampleC]" None None None]
    pg1 ps10 first len10 pg ps page
  show ?thesis by blast
qed

text \<open>
  Claim C4. For a consistent \<^verbatim>\<open>localeCompare\<close>: without a sort key the sorting step
  returns its input unchanged; with a key \<open>k\<close> the result is a rearrangement of the
  input that is ordered by the comparator and keeps records that compare equal in their
  input order. The comparator is \<^verbatim>\<open>localeCompare\<close> on the two strings for a string
  field and the difference of the two numbers for a numeric field; for the descending
  order the arguments are swapped, which reverses the sign. A first page as long as the
  store returns the whole sorted sequence.
\<close>

theorem applySort_stable:
  assumes c: "consistentComparator lc"
  shows "applySort lc None ord xs = xs
    \<and> mset (applySort lc (Some k) ord xs) = mset xs
    \<and> sorted_wrt (\<lambda>a b. compareProjects lc k ord a b \<le> 0) (applySort lc (Some k) ord xs)
    \<and> filter (\<lambda>y. compareProjects lc k ord w y = 0) (applySort lc (Some k) ord xs)
        = filter (\<lambda>y. compareProjects lc k ord w y = 0) xs
    \<and> (\<forall>s t. getField a k = Str s \<and> getField b k = Str t \<longrightarrow>
          compareProjects lc k (Some Asc) a b = lc s t
          \<and> compareProjects lc k (Some Desc) a b = lc t s)
    \<and> (\<forall>x y. getField a k = Num x \<and> getField b k = Num y \<longrightarrow>
          compareProjects lc k (Some Asc) a b = x - y
          \<and> compareProjects lc k (Some Desc) a b = y - x)
    \<and> compareProjects lc k (Some Desc) a b = compareProjects lc k (Some Asc) b a
    \<and> (compareProjects lc k (Some Desc) a b < 0) = (0 < compareProjects lc k (Some Asc) a b)
    \<and> data (fetchProjects lc store 1 (int (length store)) key ord ft)
        = applySort lc key ord (applyFilter ft store)"
proof -
  let ?cmp = "compareProjects lc k ord"
  have cc: "consistentComparator (compareProjects lc k ord')" for ord'
    by (rule compareProjects_consistent [OF c])
  have none: "applySort lc None ord xs = xs"
    by (simp add: applySort_def)
  have perm: "mset (applySort lc (Some k) ord xs) = mset xs"
    by (simp add: applySort_def mset_sort_js)
  have srt: "sorted_wrt (\<lambda>a b. ?cmp a b \<le> 0) (applySort lc (Some k) ord xs)"
    by (simp add: applySort_def sorted_sort_js [OF cc])
  have stab: "filter (\<lambda>y. ?cmp w y = 0) (applySort lc (Some k) ord xs) = filter (\<lambda>y. ?cmp w y = 0) xs"
    by (simp add: applySort_def stable_sort_js [OF cc])
  have strs: "\<forall>s t. getField a k = Str s \<and> getField b k = Str t \<longrightarrow>
          compareProjects lc k (Some Asc) a b = lc s t
          \<and> compareProjects lc k (Some Desc) a b = lc t s"
    by (simp add: compareProjects_def)
  have nums: "\<forall>x y. getField a k = Num x \<and> getField b k = Num y \<longrightarrow>
          compareProjects lc k (Some Asc) a b = x - y
          \<and> compareProjects lc k (Some Desc) a b = y - x"
    by (simp add: compareProjects_def)
  have rev: "compareProjects lc k (Some Desc) a b = compareProjects lc k (Some Asc) b a"
    by (rule compareProjects_desc_asc)
  have sign: "(compareProjects lc k (Some Desc) a b < 0) = (0 < compareProjects lc k (Some Asc) a b)"
    unfolding rev using cc [of "Some Asc"] unfolding consistentComparator_def by blast
  have full: "data (fetchProjects lc store 1 (int (length store)) key ord ft)
        = applySort lc key ord (applyFilter ft store)"
  proof -
    have "length (applyFilter ft store) \<le> length store"
      by (auto simp: applyFilter_def Let_def split: option.splits)
    then show ?thesis
      by (simp add: data_fetchProjects slice_window length_applySort)
  qed
  from none perm srt stab strs nums rev sign full show ?thesis by blast
qed

text \<open>
  Claim C4 on the three sample records, sorted by latitude, ascending: the second and
  the third record have the same latitude and keep their order.
\<close>

theorem applySort_stable_witness:
  "consistentComparator codeUnitCompare
   \<and> applySort codeUnitCompare (Some K_latitude) (Some Asc) [sampleA, sampleB, sampleC]
       = [sampleB, sampleC, sampleA]
   \<and> sorted_wrt (\<lambda>a b. compareProjects codeUnitCompare K_latitude (Some Asc) a b \<le> 0)
       (applySort codeUnitCompare (Some K_latitude) (Some Asc) [sampleA, sampleB, sampleC])
   \<and> filter (\<lambda>y. compareProjects codeUnitCompare K_latitude (Some Asc) sampleB y = 0)
       (applySort codeUnitCompare (Some K_latitude) (Some Asc) [sampleA, sampleB, sampleC])
      = filter (\<lambda>y. compareProjects codeUnitCompare K_latitude (Some Asc) sampleB y = 0)
          [sampleA, sampleB, sampleC]"
proof -
  have run: "applySort codeUnitCompare (Some K_latitude) (Some Asc) [sampleA, sampleB, sampleC]
       = [sampleB, sampleC, sampleA]"
    by (simp add: applySort_def sort_js_def compareProjects_def sampleA_def sampleB_def sampleC_def)
  from applySort_stable [OF codeUnitCompare_consistent, of "Some Asc" "[sampleA, sampleB, sampleC]"
      K_latitude sampleB]
    codeUnitCompare_consistent run
  show ?thesis by blast
qed

text \<open>
  Claim C9. For a consistent \<^verbatim>\<open>localeCompare\<close>, every sort key (or none) and every
  order, sorting the result of the sorting step again returns it unchanged.
\<close>

theorem applySort_idempotent:
  assumes c: "consistentComparator lc"
  shows "applySort lc key ord (applySort lc key ord xs) = applySort lc key ord xs"
proof (cases key)
  case None
  then show ?thesis by (simp add: applySort_def)
next
  case (Some k)
  then show ?thesis
    by (simp add: applySort_def sort_js_idem [OF compareProjects_consistent [OF c]])
qed

text \<open>Claim C9 on the three sample records, sorted by name, descending.\<close>

theorem applySort_idempotent_witness:
  "consistentComparator codeUnitCompare
   \<and> applySort codeUnitCompare (Some K_projectName) (Some Desc)
       (applySort codeUnitCompare (Some K_projectName) (Some Desc) [sampleA, sampleB, sampleC])
     = applySort codeUnitCompare (Some K_projectName) (Some Desc) [sampleA, sampleB, sampleC]
   \<and> applySort codeUnitCompare (Some K_projectName) (Some Desc) [sampleA, sampleB, sampleC]
     = [sampleB, sampleA, sampleC]"
proof -
  have run: "applySort codeUnitCompare (Some K_projectName) (Some Desc) [sampleA, sampleB, sampleC]
     = [sampleB, sampleA, sampleC]"
    by code_simp
  from applySort_idempotent [OF codeUnitCompare_consistent, of "Some K_projectName" "Some Desc"
      "[sampleA, sampleB, sampleC]"]
    codeUnitCompare_consistent run
  show ?thesis by blast
qed

text \<open>
  Claim C5. For every page size: when the page is at least 1 and the pages before it
  already hold all filtered records (\<open>total \<le> (page - 1) * pageSize\<close>), the items are
  empty; for a positive page size this is the case when the page exceeds the page count
  \<^verbatim>\<open>Math.ceil(total / pageSize)\<close> of the table. The total is the number of filtered
  records whatever the page, and the function returns a response, it has no failing
  path. With 5000 records and no filter, page 101 of size 50 is empty and the total is
  5000.
\<close>

theorem fetchProjects_page_beyond_last:
  "(1 \<le> pg \<and> total_field (fetchProjects lc store pg ps key ord ft) \<le> (pg - 1) * ps
      \<longrightarrow> data (fetchProjects lc store pg ps key ord ft) = [])
   \<and> (0 < ps \<and> (\<exists>m. totalPages (total_field (fetchProjects lc store pg ps key ord ft)) ps = Some m \<and> m < pg)
      \<longrightarrow> data (fetchProjects lc store pg ps key ord ft) = [])
   \<and> total_field (fetchProjects lc store pg ps key ord ft) = int (length (applyFilter ft store))
   \<and> (length store = 5000
      \<longrightarrow> data (fetchProjects lc store 101 50 key ord None) = []
        \<and> total_field (fetchProjects lc store 101 50 key ord None) = 5000)"
proof -
  let ?n = "total_field (fetchProjects lc store pg ps key ord ft)"
  have first: "data (fetchProjects lc store pg ps key ord ft) = []"
    if "1 \<le> pg" and "?n \<le> (pg - 1) * ps"
  proof -
    have "int (length (applySort lc key ord (applyFilter ft store))) \<le> (pg - 1) * ps"
      using that(2) by (simp add: total_fetchProjects length_applySort)
    then show ?thesis
      unfolding data_fetchProjects by (rule slice_past_end [OF that(1)])
  qed
  have second: "data (fetchProjects lc store pg ps key ord ft) = []"
    if "0 < ps" and "\<exists>m. totalPages ?n ps = Some m \<and> m < pg"
  proof -
    from that totalPages_exceeded [OF that(1), of ?n pg]
    have le: "?n \<le> (pg - 1) * ps" by (auto simp: totalPages_positive)
    have "0 \<le> ?n" by (simp add: total_fetchProjects)
    with le that(1) have "1 \<le> pg"
      by (smt (verit) mult_nonpos_nonneg mult_less_0_iff)
    then show ?thesis using le by (rule first)
  qed
  have tot: "?n = int (length (applyFilter ft store))"
    by (rule total_fetchProjects)
  have scen: "data (fetchProjects lc store 101 50 key ord None) = []
        \<and> total_field (fetchProjects lc store 101 50 key ord None) = 5000"
    if "length store = 5000"
  proof -
    have t: "total_field (fetchProjects lc store 101 50 key ord None) = 5000"
      using that by (simp add: total_fetchProjects applyFilter_def)
    have "slice (applySort lc key ord (applyFilter None store)) ((101 - 1) * 50) ((101 - 1) * 50 + 50) = []"
      by (rule slice_past_end) (simp_all add: length_applySort applyFilter_def that)
    then show ?thesis using t by (simp add: data_fetchProjects)
  qed
  from first second tot scen show ?thesis by blast
qed

text \<open>
  Claim C5 on the three sample records (page 3 of size 2, beyond the 2 pages) and on
  the 5000 generated records (page 101 of size 50).
\<close>

theorem fetchProjects_page_beyond_last_witness:
  "(1::int) \<le> 3
   \<and> total_field (fetchProjects codeUnitCompare [sampleA, sampleB, sampleC] 3 2 None None None) \<le> (3 - 1) * 2
   \<and> data (fetchProjects codeUnitCompare [sampleA, sampleB, sampleC] 3 2 None None None) = []
   \<and> (0::int) < 2
   \<and> totalPages (total_field (fetchProjects codeUnitCompare [sampleA, sampleB, sampleC] 3 2 None None None)) 2
       = Some 2
   \<and> length (generateMockData sampleDraw) = 5000
   \<and> data (fetchProjects codeUnitCompare (generateMockData sampleDraw) 101 50 None None None) = []
   \<and> total_field (fetchProjects codeUnitCompare (generateMockData sampleDraw) 101 50 None None None) = 5000"
proof -
  have pg: "(1::int) \<le> 3" by simp
  have tot: "total_field (fetchProjects codeUnitCompare [sampleA, sampleB, sampleC] 3 2 None None None) \<le> (3 - 1) * 2"
    by (simp add: total_fetchProjects applyFilter_def)
  have ps: "(0::int) < 2" by simp
  have pages: "totalPages (total_field (fetchProjects codeUnitCompare [sampleA, sampleB, sampleC] 3 2 None None None)) 2
       = Some 2"
    by (simp add: total_fetchProjects applyFilter_def totalPages_def)
  have len: "length (generateMockData sampleDraw) = 5000"
    by (rule length_generateMockData)
  from fetchProjects_page_beyond_last
         [of 3 codeUnitCompare "[sampleA, sampleB, sampleC]" 2 None None None] pg tot
  have a: "data (fetchProjects codeUnitCompare [sampleA, sampleB, sampleC] 3 2 None None None) = []"
    by blast
  from fetchProjects_page_beyond_last
         [of 101 codeUnitCompare "generateMockData sampleDraw" 50 None None None] len
  have b: "data (fetchProjects codeUnitCompare (generateMockData sampleDraw) 101 50 None None None) = []
     \<and> total_field (fetchProjects codeUnitCompare (generateMockData sampleDraw) 101 50 None None None) = 5000"
    by blast
  from pg tot a ps pages len b show ?thesis by blast
qed

text \<open>
  Claim C10. When the cache holds an array, a call of the query function with any
  parameters leaves the cache variable pointing at the same array with the same
  contents, writes to no array that existed before the call, and answers from these
  contents; the same holds after any run of calls. When the cache is still empty, the
  call stores the generated records in a new array and writes to no array that existed
  before. From the module as loaded, every query of a run is answered from the one
  generated snapshot.
\<close>

theorem fetchProjectsM_leaves_cache:
  "(cachedData m = Some c \<and> c < nextAddr m \<and> arrays m c = Some xs \<longrightarrow>
      cachedData (snd (fetchProjectsM lc rand pg ps key ord ft m)) = Some c
      \<and> arrays (snd (fetchProjectsM lc rand pg ps key ord ft m)) c = Some xs
      \<and> (\<forall>a<nextAddr m. arrays (snd (fetchProjectsM lc rand pg ps key ord ft m)) a = arrays m a)
      \<and> fst (fetchProjectsM lc rand pg ps key ord ft m) = fetchProjects lc xs pg ps key ord ft
      \<and> cachedData (snd (runQueries lc rand qs m)) = Some c
      \<and> arrays (snd (runQueries lc rand qs m)) c = Some xs
      \<and> fst (runQueries lc rand qs m) = map (answer lc xs) qs)
   \<and> (cachedData m = None \<longrightarrow>
      cachedData (snd (fetchProjectsM lc rand pg ps key ord ft m)) = Some (nextAddr m)
      \<and> arrays (snd (fetchProjectsM lc rand pg ps key ord ft m)) (nextAddr m)
          = Some (generateMockData rand)
      \<and> (\<forall>a<nextAddr m. arrays (snd (fetchProjectsM lc rand pg ps key ord ft m)) a = arrays m a)
      \<and> fst (runQueries lc rand qs m) = map (answer lc (generateMockData rand)) qs)
   \<and> fst (runQueries lc rand qs initialModule) = map (answer lc (generateMockData rand)) qs"
proof -
  have cached: "cachedData (snd (fetchProjectsM lc rand pg ps key ord ft m)) = Some c
      \<and> arrays (snd (fetchProjectsM lc rand pg ps key ord ft m)) c = Some xs
      \<and> (\<forall>a<nextAddr m. arrays (snd (fetchProjectsM lc rand pg ps key ord ft m)) a = arrays m a)
      \<and> fst (fetchProjectsM lc rand pg ps key ord ft m) = fetchProjects lc xs pg ps key ord ft
      \<and> cachedData (snd (runQueries lc rand qs m)) = Some c
      \<and> arrays (snd (runQueries lc rand qs m)) c = Some xs
      \<and> fst (runQueries lc rand qs m) = map (answer lc xs) qs"
    if wf: "cachedData m = Some c" "c < nextAddr m" "arrays m c = Some xs"
    using fetchProjectsM_cached [OF wf, of lc rand pg ps key ord ft]
      runQueries_cached [OF wf, of lc rand qs] wf(2,3)
    by simp
  have first: "cachedData (snd (fetchProjectsM lc rand pg ps key ord ft m)) = Some (nextAddr m)
      \<and> arrays (snd (fetchProjectsM lc rand pg ps key ord ft m)) (nextAddr m)
          = Some (generateMockData rand)
      \<and> (\<forall>a<nextAddr m. arrays (snd (fetchProjectsM lc rand pg ps key ord ft m)) a = arrays m a)
      \<and> fst (runQueries lc rand qs m) = map (answer lc (generateMockData rand)) qs"
    if "cachedData m = None"
    using fetchProjectsM_first [OF that, of lc rand pg ps key ord ft]
      runQueries_initial(1) [OF that, of lc rand qs]
    by simp
  have init: "fst (runQueries lc rand qs initialModule) = map (answer lc (generateMockData rand)) qs"
    by (rule runQueries_initial(1)) (simp add: initialModule_def)
  from cached first init show ?thesis by blast
qed

text \<open>
  Claim C10 on a module that caches the three sample records, for a sorted query, and
  on the module as loaded.
\<close>

theorem fetchProjectsM_leaves_cache_witness:
  "cachedData sampleModule = Some 0 \<and> 0 < nextAddr sampleModule
   \<and> arrays sampleModule 0 = Some [sampleA, sampleB, sampleC]
   \<and> arrays (snd (fetchProjectsM codeUnitCompare sampleDraw 1 2 (Some K_latitude) (Some Asc) None
                sampleModule)) 0 = Some [sampleA, sampleB, sampleC]
   \<and> data (fst (fetchProjectsM codeUnitCompare sampleDraw 1 2 (Some K_latitude) (Some Asc) None
                sampleModule)) = [sampleB, sampleC]
   \<and> cachedData initialModule = None
   \<and> cachedData (snd (fetchProjectsM codeUnitCompare sampleDraw 1 2 (Some K_latitude) (Some Asc) None
                initialModule)) = Some 0"
proof -
  have w1: "cachedData sampleModule = Some 0" by (simp add: sampleModule_def)
  have w2: "0 < nextAddr sampleModule" by (simp add: sampleModule_def)
  have w3: "arrays sampleModule 0 = Some [sampleA, sampleB, sampleC]" by (simp add: sampleModule_def)
  have w4: "cachedData initialModule = None" by (simp add: initialModule_def)
  have run: "data (fetchProjects codeUnitCompare [sampleA, sampleB, sampleC] 1 2 (Some K_latitude) (Some Asc) None)
      = [sampleB, sampleC]"
    by (simp add: fetchProjects_def applyFilter_def applySort_def sort_js_def compareProjects_def
        slice_def Let_def sampleA_def sampleB_def sampleC_def)
  from fetchProjectsM_leaves_cache [of sampleModule 0 "[sampleA, sampleB, sampleC]" codeUnitCompare
      sampleDraw 1 2 "Some K_latitude" "Some Asc" None "[]"] w1 w2 w3
  have a: "arrays (snd (fetchProjectsM codeUnitCompare sampleDraw 1 2 (Some K_latitude) (Some Asc) None
                sampleModule)) 0 = Some [sampleA, sampleB, sampleC]"
    and b: "fst (fetchProjectsM codeUnitCompare sampleDraw 1 2 (Some K_latitude) (Some Asc) None
                sampleModule) = fetchProjects codeUnitCompare [sampleA, sampleB, sampleC] 1 2 (Some K_latitude) (Some Asc) None"
    by blast+
  from fetchProjectsM_leaves_cache [of initialModule 0 "[]" codeUnitCompare
      sampleDraw 1 2 "Some K_latitude" "Some Asc" None "[]"] w4
  have c: "cachedData (snd (fetchProjectsM codeUnitCompare sampleDraw 1 2 (Some K_latitude) (Some Asc) None
                initialModule)) = Some 0"
    by (simp add: initialModule_def)
  from w1 w2 w3 a b run w4 c show ?thesis by simp
qed

text \<open>
  Claim C3. \<open>loadData\<close> passes no filter text: replacing the filter text of the state
  by any other changes neither the loaded rows nor the loaded total. The rows are those
  of the unfiltered query, and the total is the size of the store.
\<close>

theorem loadData_ignores_filterText:
  "tableData (loadData lc store (h\<lparr>state := (state h)\<lparr>filterText := txt\<rparr>\<rparr>))
     = tableData (loadData lc store h)
   \<and> tableTotal (loadData lc store (h\<lparr>state := (state h)\<lparr>filterText := txt\<rparr>\<rparr>))
     = tableTotal (loadData lc store h)
   \<and> tableData (loadData lc store h)
     = data (fetchProjects lc store (page (state h)) (pageSize (state h))
               (sortBy (state h)) (Some (sortOrder (state h))) None)
   \<and> tableTotal (loadData lc store h) = int (length store)"
  by (simp add: loadData_def Let_def total_fetchProjects applyFilter_def)


section \<open>Selection and query parameters\<close>

text \<open>
  Claim C6. Selecting record A and then record B, by a row click or a marker click (both
  call \<open>handleRowSelect\<close>), leaves B as the selected id and the set of selected ids equal
  to the singleton of B; in every state of the hook the set of selected ids is finite and
  has at most one element.
\<close>

theorem handleRowSelect_single_selection:
  "selectedId (handleRowSelect B (handleRowSelect A h)) = Some B
   \<and> {i. isSelected (handleRowSelect B (handleRowSelect A h)) i} = {B}
   \<and> finite {i. isSelected h i}
   \<and> card {i. isSelected h i} \<le> 1"
proof -
  have sel: "selectedId (handleRowSelect B (handleRowSelect A h)) = Some B"
    by (simp add: handleRowSelect_def)
  have one: "{i. isSelected (handleRowSelect B (handleRowSelect A h)) i} = {B}"
    by (auto simp: isSelected_def handleRowSelect_def)
  have most: "finite {i. isSelected h i} \<and> card {i. isSelected h i} \<le> 1"
  proof (cases "selectedId h")
    case None
    then show ?thesis by (simp add: isSelected_def)
  next
    case (Some s)
    then have "{i. isSelected h i} = {s}" by (auto simp: isSelected_def)
    then show ?thesis by simp
  qed
  from sel one most show ?thesis by blast
qed

text \<open>
  Claim C7. Whatever the page was, the state after \<open>handleSearch\<close> and the state after
  \<open>handleSort\<close> have page 1. The other handlers leave filter text, sort key and sort
  order as they were, so these two are the only transitions that change them.
\<close>

theorem search_and_sort_reset_page:
  "page (state (handleSearch text h)) = 1
   \<and> filterText (state (handleSearch text h)) = text
   \<and> page (state (handleSort column h)) = 1
   \<and> sortBy (state (handleSort column h)) = Some column
   \<and> filterText (state (handlePageChange p h)) = filterText (state h)
   \<and> sortBy (state (handlePageChange p h)) = sortBy (state h)
   \<and> sortOrder (state (handlePageChange p h)) = sortOrder (state h)
   \<and> filterText (state (handlePageSizeChange ps h)) = filterText (state h)
   \<and> sortBy (state (handlePageSizeChange ps h)) = sortBy (state h)
   \<and> sortOrder (state (handlePageSizeChange ps h)) = sortOrder (state h)
   \<and> state (handleRowSelect i h) = state h"
  by (simp add: handleSearch_def handleSort_def handlePageChange_def
      handlePageSizeChange_def handleRowSelect_def Let_def)

text \<open>
  Claim C8, as the specification states it, fails: a page change does not clear the
  selection. With record \<^verbatim>\<open>project-1\<close> selected, moving to page 2 leaves it selected.
\<close>

theorem handlePageChange_keeps_selection_example:
  "selectedId (handlePageChange 2 (handleRowSelect ''project-1'' initialHook))
     = Some ''project-1''
   \<and> selectedId (handlePageChange 2 (handleRowSelect ''project-1'' initialHook)) \<noteq> None"
  by (simp add: handlePageChange_def handleRowSelect_def initialHook_def)

text \<open>
  Claim C8, amended. \<open>handlePageChange\<close> writes the page and nothing else: the selected
  id, the loaded rows and every other query parameter are the same before and after.
\<close>

theorem handlePageChange_preserves_selection:
  "selectedId (handlePageChange p h) = selectedId h
   \<and> page (state (handlePageChange p h)) = p
   \<and> handlePageChange p h = h\<lparr>state := (state h)\<lparr>page := p\<rparr>\<rparr>
   \<and> isSelected (handlePageChange p h) i = isSelected h i"
  by (simp add: handlePageChange_def isSelected_def)

end
